theory Spec2Isabelle
  imports Complex_Main "HOL-Library.Sublist" "HOL-Library.Code_Target_Nat"
begin

section \<open>Strings and the Unicode tables\<close>

text \<open>
  A Python \<open>str\<close> is a sequence of Unicode code points, and \<open>len\<close> counts code points,
  so a string is a list of code points here. \<open>u\<close> embeds an ASCII literal; a code point
  outside ASCII is written as its number (\<open>225\<close> is U+00E1, a with acute).
\<close>

type_synonym ustr = "nat list"

definition u :: "string \<Rightarrow> ustr" where
  "u s = map of_char s"

text \<open>
  The scripts read the Unicode character database through the standard library
  (\<open>str.upper\<close>, \<open>str.lower\<close>, \<open>str.strip\<close>, \<open>str.split\<close>, \<open>unicodedata.normalize\<close>,
  \<open>unicodedata.combining\<close>, and the classes \<open>\s\<close>, \<open>\d\<close> and the case folding of \<open>re\<close>).
  The database is not part of the repository, so every function takes it as the
  parameter \<open>db\<close>:
  \<^item> \<open>isspace\<close>: the white space of \<open>str.strip\<close>, \<open>str.split\<close> and \<open>\s\<close>;
  \<^item> \<open>decimal\<close>: the value of a decimal digit (\<open>\d\<close> matches where it is defined, and
    \<open>float\<close> reads the digit with that value);
  \<^item> \<open>tolower\<close>, \<open>toupper\<close>: the simple case mappings of one code point (\<open>re.IGNORECASE\<close>);
  \<^item> \<open>str_upper\<close>, \<open>str_lower\<close>: \<open>str.upper\<close> and \<open>str.lower\<close> (which may change the length);
  \<^item> \<open>nfkc\<close>, \<open>nfkd\<close>: \<open>unicodedata.normalize\<close> in these two forms;
  \<^item> \<open>combining\<close>: \<open>unicodedata.combining\<close>, the canonical combining class.
\<close>

record unicode_db =
  isspace :: "nat \<Rightarrow> bool"
  decimal :: "nat \<Rightarrow> nat option"
  tolower :: "nat \<Rightarrow> nat"
  toupper :: "nat \<Rightarrow> nat"
  str_upper :: "ustr \<Rightarrow> ustr"
  str_lower :: "ustr \<Rightarrow> ustr"
  nfkc :: "ustr \<Rightarrow> ustr"
  nfkd :: "ustr \<Rightarrow> ustr"
  combining :: "nat \<Rightarrow> nat"

subsection \<open>The tables on Basic Latin and Latin-1\<close>

text \<open>
  \<open>latin1\<close> is the database on the code points U+0000 to U+00FF, which is what the
  receipts and the patterns of the scripts use; it evaluates the functions on concrete
  texts. A code point above U+00FF is left alone by it and belongs to no class (the
  ligatures U+FB00 to U+FB06, which \<open>limpar_texto\<close> names, are the exception).
\<close>

definition l1_isspace :: "nat \<Rightarrow> bool" where
  "l1_isspace c = (c = 32 \<or> (9 \<le> c \<and> c \<le> 13) \<or> (28 \<le> c \<and> c \<le> 31) \<or> c = 133 \<or> c = 160)"

definition l1_decimal :: "nat \<Rightarrow> nat option" where
  "l1_decimal c = (if 48 \<le> c \<and> c \<le> 57 then Some (c - 48) else None)"

definition l1_tolower :: "nat \<Rightarrow> nat" where
  "l1_tolower c =
     (if (65 \<le> c \<and> c \<le> 90) \<or> (192 \<le> c \<and> c \<le> 214) \<or> (216 \<le> c \<and> c \<le> 222)
      then c + 32 else c)"

definition l1_toupper :: "nat \<Rightarrow> nat" where
  "l1_toupper c =
     (if (97 \<le> c \<and> c \<le> 122) \<or> (224 \<le> c \<and> c \<le> 246) \<or> (248 \<le> c \<and> c \<le> 254)
      then c - 32
      else if c = 181 then 924 else if c = 255 then 376 else c)"

definition l1_upper_char :: "nat \<Rightarrow> ustr" where
  "l1_upper_char c = (if c = 223 then [83, 83] else [l1_toupper c])"

text \<open>The canonical and compatibility decompositions of the Latin-1 block.\<close>

definition l1_accent :: "nat \<Rightarrow> (nat \<times> nat) option" where
  "l1_accent c = map_of
     [(192, (65, 768)), (193, (65, 769)), (194, (65, 770)), (195, (65, 771)),
      (196, (65, 776)), (197, (65, 778)), (199, (67, 807)),
      (200, (69, 768)), (201, (69, 769)), (202, (69, 770)), (203, (69, 776)),
      (204, (73, 768)), (205, (73, 769)), (206, (73, 770)), (207, (73, 776)),
      (209, (78, 771)),
      (210, (79, 768)), (211, (79, 769)), (212, (79, 770)), (213, (79, 771)),
      (214, (79, 776)),
      (217, (85, 768)), (218, (85, 769)), (219, (85, 770)), (220, (85, 776)),
      (221, (89, 769)),
      (224, (97, 768)), (225, (97, 769)), (226, (97, 770)), (227, (97, 771)),
      (228, (97, 776)), (229, (97, 778)), (231, (99, 807)),
      (232, (101, 768)), (233, (101, 769)), (234, (101, 770)), (235, (101, 776)),
      (236, (105, 768)), (237, (105, 769)), (238, (105, 770)), (239, (105, 776)),
      (241, (110, 771)),
      (242, (111, 768)), (243, (111, 769)), (244, (111, 770)), (245, (111, 771)),
      (246, (111, 776)),
      (249, (117, 768)), (250, (117, 769)), (251, (117, 770)), (252, (117, 776)),
      (253, (121, 769)), (255, (121, 776))] c"

definition l1_compat :: "nat \<Rightarrow> ustr option" where
  "l1_compat c = map_of
     [(160, [32]), (168, [32, 776]), (170, [97]), (175, [32, 772]),
      (178, [50]), (179, [51]), (180, [32, 769]), (181, [956]), (184, [32, 807]),
      (185, [49]), (186, [111]),
      (188, [49, 8260, 52]), (189, [49, 8260, 50]), (190, [51, 8260, 52]),
      (64256, [102, 102]), (64257, [102, 105]), (64258, [102, 108]),
      (64259, [102, 102, 105]), (64260, [102, 102, 108]),
      (64261, [115, 116]), (64262, [115, 116])] c"

definition l1_nfkd_char :: "nat \<Rightarrow> ustr" where
  "l1_nfkd_char c =
     (case l1_compat c of Some s \<Rightarrow> s
      | None \<Rightarrow> (case l1_accent c of Some (b, m) \<Rightarrow> [b, m] | None \<Rightarrow> [c]))"

definition l1_nfkc_char :: "nat \<Rightarrow> ustr" where
  "l1_nfkc_char c = (case l1_compat c of Some s \<Rightarrow> s | None \<Rightarrow> [c])"

definition l1_combining :: "nat \<Rightarrow> nat" where
  "l1_combining c =
     (if 768 \<le> c \<and> c \<le> 788 then 230
      else if c = 807 then 202 else 0)"

definition latin1 :: unicode_db where
  "latin1 = \<lparr> isspace = l1_isspace, decimal = l1_decimal,
               tolower = l1_tolower, toupper = l1_toupper,
               str_upper = (\<lambda>s. concat (map l1_upper_char s)),
               str_lower = map l1_tolower,
               nfkc = (\<lambda>s. concat (map l1_nfkc_char s)),
               nfkd = (\<lambda>s. concat (map l1_nfkd_char s)),
               combining = l1_combining \<rparr>"

subsection \<open>The string methods\<close>

text \<open>\<open>s.strip()\<close>: white space removed at both ends.\<close>

definition strip :: "unicode_db \<Rightarrow> ustr \<Rightarrow> ustr" where
  "strip db s = rev (dropWhile (isspace db) (rev (dropWhile (isspace db) s)))"

text \<open>\<open>s.split()\<close>: the maximal runs of code points that are not white space.\<close>

fun split_acc :: "(nat \<Rightarrow> bool) \<Rightarrow> ustr \<Rightarrow> ustr \<Rightarrow> ustr list" where
  "split_acc sp cur [] = (if cur = [] then [] else [cur])"
| "split_acc sp cur (c # cs) =
     (if sp c then (if cur = [] then split_acc sp [] cs else cur # split_acc sp [] cs)
      else split_acc sp (cur @ [c]) cs)"

definition split :: "unicode_db \<Rightarrow> ustr \<Rightarrow> ustr list" where
  "split db s = split_acc (isspace db) [] s"

text \<open>\<open>sep.join(parts)\<close>.\<close>

fun join :: "ustr \<Rightarrow> ustr list \<Rightarrow> ustr" where
  "join sep [] = []"
| "join sep [w] = w"
| "join sep (w # ws) = w @ sep @ join sep ws"

text \<open>\<open>sub in s\<close>: \<open>sub\<close> occurs in \<open>s\<close> as a contiguous substring.\<close>

fun contains :: "ustr \<Rightarrow> ustr \<Rightarrow> bool" where
  "contains sub [] = (sub = [])"
| "contains sub (c # cs) = (prefix sub (c # cs) \<or> contains sub cs)"

text \<open>\<open>s.replace(old, new)\<close> for a non-empty \<open>old\<close>: left to right, no overlaps.\<close>

function replace :: "ustr \<Rightarrow> ustr \<Rightarrow> ustr \<Rightarrow> ustr" where
  "replace old new [] = []"
| "replace old new (c # cs) =
     (if old \<noteq> [] \<and> prefix old (c # cs)
      then new @ replace old new (drop (length old) (c # cs))
      else c # replace old new cs)"
  by pat_completeness auto
termination
  by (relation "measure (\<lambda>(old, new, s). length s)") (auto simp: Suc_le_eq)

text \<open>\<open>str(n)\<close> for a natural number: its decimal digits.\<close>

function str_nat :: "nat \<Rightarrow> ustr" where
  "str_nat n = (if n < 10 then [48 + n] else str_nat (n div 10) @ [48 + n mod 10])"
  by pat_completeness auto
termination
  by (relation "measure id") auto

declare str_nat.simps [simp del]

section \<open>Configuration\<close>

definition MAX_NAME_LEN :: nat where
  "MAX_NAME_LEN = 60"

definition BARCODE_TAIL_LEN :: nat where
  "BARCODE_TAIL_LEN = 6"

definition PIX_PREFIX :: ustr where
  "PIX_PREFIX = u ''N''"

definition FORNECEDOR_DESCONHECIDO :: ustr where
  "FORNECEDOR_DESCONHECIDO = u ''FORNECEDOR_DESCONHECIDO''"

definition VALOR_NAO_ENCONTRADO :: ustr where
  "VALOR_NAO_ENCONTRADO = u ''VALOR_NAO_ENCONTRADO''"

section \<open>The file name\<close>

text \<open>
  \<open>sanitize_filename\<close> (the same in both scripts). The two \<open>re.sub\<close> calls delete single
  code points: first those of \<open>[\\/\\:\*\?"<>\|]\<close>, then those outside
  \<open>[0-9A-Za-z_\-\s\(\)\[\]]\<close>.
\<close>

definition illegal_char :: "nat \<Rightarrow> bool" where
  \<comment> \<open>backslash, slash, colon, asterisk, question mark, double quote, less, greater, bar\<close>
  "illegal_char c = (c \<in> set [92, 47, 58, 42, 63, 34, 60, 62, 124])"

definition ascii_digit :: "nat \<Rightarrow> bool" where
  "ascii_digit c = (48 \<le> c \<and> c \<le> 57)"

definition ascii_letter :: "nat \<Rightarrow> bool" where
  "ascii_letter c = ((65 \<le> c \<and> c \<le> 90) \<or> (97 \<le> c \<and> c \<le> 122))"

definition allowed_char :: "unicode_db \<Rightarrow> nat \<Rightarrow> bool" where
  "allowed_char db c =
     (ascii_digit c \<or> ascii_letter c \<or> c \<in> set (u ''_-()[]'') \<or> isspace db c)"

definition sanitize_filename :: "unicode_db \<Rightarrow> ustr \<Rightarrow> ustr" where
  "sanitize_filename db name0 =
     (let name1 = strip db name0;
          name2 = nfkd db name1;
          name3 = filter (\<lambda>c. combining db c = 0) name2;
          name4 = filter (\<lambda>c. \<not> illegal_char c) name3;
          name5 = filter (allowed_char db) name4;
          name6 = join (u ''_'') (split db name5);
          name7 = (if length name6 > MAX_NAME_LEN then take MAX_NAME_LEN name6 else name6)
      in if name7 = [] then FORNECEDOR_DESCONHECIDO else name7)"

text \<open>
  \<open>montar_nome\<close> (the same in both scripts). \<open>contador\<close> is the occurrence number, a
  value of the run's counter, so a natural number.
\<close>

definition montar_nome :: "unicode_db \<Rightarrow> ustr \<Rightarrow> ustr \<Rightarrow> nat \<Rightarrow> ustr \<Rightarrow> ustr" where
  "montar_nome db benef valor contador snippet =
     (let benef_safe = sanitize_filename db benef;
          valor_safe = (if valor \<noteq> [] then valor else VALOR_NAO_ENCONTRADO);
          base = (if snippet \<noteq> []
                  then benef_safe @ u '' - '' @ snippet @ u '' - '' @ valor_safe
                  else benef_safe @ u '' - '' @ valor_safe)
      in if contador > 1
         then PIX_PREFIX @ str_nat contador @ u '' - '' @ base @ u ''.pdf''
         else base @ u ''.pdf'')"

section \<open>The occurrence counter\<close>

text \<open>
  In \<open>main\<close>, \<open>contador = defaultdict(int)\<close> maps a key \<open>(empresa, beneficiario, valor)\<close> to
  the number of pages seen with it, \<open>0\<close> for a key not seen yet. A page does
  \<open>contador[chave] += 1; cnt = contador[chave]\<close>.
\<close>

type_synonym chave = "ustr \<times> ustr \<times> ustr"

definition contador_inicial :: "chave \<Rightarrow> nat" where
  "contador_inicial = (\<lambda>k. 0)"

definition proxima_ocorrencia :: "(chave \<Rightarrow> nat) \<Rightarrow> chave \<Rightarrow> (chave \<Rightarrow> nat) \<times> nat" where
  "proxima_ocorrencia contador k =
     (let contador' = contador(k := contador k + 1) in (contador', contador' k))"

text \<open>The occurrence numbers of a run: the pages' keys, in processing order.\<close>

fun numerar :: "(chave \<Rightarrow> nat) \<Rightarrow> chave list \<Rightarrow> nat list" where
  "numerar contador [] = []"
| "numerar contador (k # ks) =
     (case proxima_ocorrencia contador k of (contador', cnt) \<Rightarrow> cnt # numerar contador' ks)"

text \<open>The file names of a run of pages whose results are given.\<close>

fun nomear :: "unicode_db \<Rightarrow> (chave \<Rightarrow> nat) \<Rightarrow> chave list \<Rightarrow> ustr list" where
  "nomear db contador [] = []"
| "nomear db contador ((empresa, benef, valor) # ks) =
     (case proxima_ocorrencia contador (empresa, benef, valor) of
        (contador', cnt) \<Rightarrow> montar_nome db benef valor cnt [] # nomear db contador' ks)"

section \<open>The name validator\<close>

text \<open>
  \<open>re.search(r'[a-zA-Z]', nome)\<close>, without \<open>re.IGNORECASE\<close>: some code point of \<open>nome\<close>
  is an ASCII letter.
\<close>

definition tem_letra :: "ustr \<Rightarrow> bool" where
  "tem_letra nome = list_ex ascii_letter nome"

text \<open>
  \<open>re.match(r'^[\d\.\-\*\s]+$', nome)\<close>: the class matches a decimal digit, a dot, a
  hyphen, an asterisk or white space; \<open>$\<close> matches at the end of the string and before a
  line feed that ends it.
\<close>

definition digito_ou_pontuacao :: "unicode_db \<Rightarrow> nat \<Rightarrow> bool" where
  "digito_ou_pontuacao db c =
     (decimal db c \<noteq> None \<or> c = 46 \<or> c = 45 \<or> c = 42 \<or> isspace db c)"

definition so_digitos :: "unicode_db \<Rightarrow> ustr \<Rightarrow> bool" where
  "so_digitos db nome =
     ((nome \<noteq> [] \<and> list_all (digito_ou_pontuacao db) nome)
      \<or> (2 \<le> length nome \<and> last nome = 10 \<and> list_all (digito_ou_pontuacao db) (butlast nome)))"

text \<open>
  \<open>len(re.findall(r'[a-zA-Z]{5,}', nome)) > 0\<close>: five ASCII letters in a row. The first
  argument counts the letters of the run that ends before the rest of the string.
\<close>

fun letras_seguidas :: "nat \<Rightarrow> ustr \<Rightarrow> bool" where
  "letras_seguidas n [] = False"
| "letras_seguidas n (c # cs) =
     (if ascii_letter c then (5 \<le> Suc n \<or> letras_seguidas (Suc n) cs)
      else letras_seguidas 0 cs)"

text \<open>The technical field names, \<open>rejeitar\<close>: 22 in the v16 script, the first 16 in the other.\<close>

definition rejeitar_v16 :: "ustr list" where
  "rejeitar_v16 =
     [u ''agencia'', u ''conta'', u ''cpf'', u ''cnpj'', u ''chave'', u ''instituicao'',
      u ''banco'', u ''dados'', u ''transferencia'', u ''pagamento'', u ''valor'',
      u ''documento'', u ''autenticacao'', u ''controle'', u ''debito'', u ''origem'',
      u ''destino'', u ''corrente'', u ''codigo'', u ''barras'', u ''linha'', u ''digitavel'']"

definition rejeitar_san :: "ustr list" where
  "rejeitar_san =
     [u ''agencia'', u ''conta'', u ''cpf'', u ''cnpj'', u ''chave'', u ''instituicao'',
      u ''banco'', u ''dados'', u ''transferencia'', u ''pagamento'', u ''valor'',
      u ''documento'', u ''autenticacao'', u ''controle'', u ''debito'', u ''origem'']"

text \<open>
  The loop \<open>for r in rejeitar: if nome_lower == r or nome_lower.startswith(r + ' '): return False\<close>;
  the result says whether the loop returned.
\<close>

fun campo_tecnico :: "ustr \<Rightarrow> ustr list \<Rightarrow> bool" where
  "campo_tecnico nome_lower [] = False"
| "campo_tecnico nome_lower (r # rs) =
     (if nome_lower = r \<or> prefix (r @ u '' '') nome_lower then True
      else campo_tecnico nome_lower rs)"

text \<open>The names of the system's own companies, \<open>empresas_sistema\<close>.\<close>

definition empresas_sistema_v16 :: "ustr list" where
  "empresas_sistema_v16 =
     [u ''FARMAUSA'', u ''URBANBOX'', u ''PHARMACEUTICAL'', u ''LIFE SCIENCE'', u ''SICOOB'']"

definition empresas_sistema_san :: "ustr list" where
  "empresas_sistema_san = [u ''SYSTEM_BANK'', u ''YOUR_COMPANY'']"

text \<open>
  The loop over \<open>empresas_sistema\<close> of the v16 script: a name that contains \<open>emp\<close> makes the
  validator return \<open>False\<close>, unless \<open>emp\<close> is \<open>SICOOB\<close>, the upper-cased name has more than
  25 code points and it does not contain \<open>SISTEMA DE COOPERATIVAS\<close>; then the loop goes on.
\<close>

fun empresa_do_sistema_v16 :: "ustr \<Rightarrow> ustr list \<Rightarrow> bool" where
  "empresa_do_sistema_v16 nome_upper [] = False"
| "empresa_do_sistema_v16 nome_upper (emp # emps) =
     (if contains emp nome_upper
      then (if emp = u ''SICOOB'' \<and> 25 < length nome_upper
               \<and> \<not> contains (u ''SISTEMA DE COOPERATIVAS'') nome_upper
            then empresa_do_sistema_v16 nome_upper emps
            else True)
      else empresa_do_sistema_v16 nome_upper emps)"

text \<open>The same loop in the other script, which has no exception.\<close>

fun empresa_do_sistema_san :: "ustr \<Rightarrow> ustr list \<Rightarrow> bool" where
  "empresa_do_sistema_san nome_upper [] = False"
| "empresa_do_sistema_san nome_upper (emp # emps) =
     (if contains emp nome_upper then True else empresa_do_sistema_san nome_upper emps)"

text \<open>\<open>validar_nome\<close> of \<open>renomear_comprovantes_v16_bradesco_pix.py\<close>.\<close>

definition validar_nome_v16 :: "unicode_db \<Rightarrow> ustr \<Rightarrow> nat \<Rightarrow> bool" where
  "validar_nome_v16 db nome min_len =
     (if nome = [] \<or> length nome < min_len then False
      else if \<not> tem_letra nome then False
      else if so_digitos db nome then False
      else if empresa_do_sistema_v16 (str_upper db nome) empresas_sistema_v16 then False
      else if campo_tecnico (str_lower db nome) rejeitar_v16 then False
      else if \<not> tem_letra nome then False
      else if 2 \<le> length (split db nome) \<or> letras_seguidas 0 nome then True
      else False)"

text \<open>\<open>validar_nome\<close> of \<open>renomear_comprovantes_sanitized.py\<close>.\<close>

definition validar_nome_san :: "unicode_db \<Rightarrow> ustr \<Rightarrow> nat \<Rightarrow> bool" where
  "validar_nome_san db nome min_len =
     (if nome = [] \<or> length nome < min_len then False
      else if \<not> tem_letra nome then False
      else if so_digitos db nome then False
      else if empresa_do_sistema_san (str_upper db nome) empresas_sistema_san then False
      else if campo_tecnico (str_lower db nome) rejeitar_san then False
      else if 2 \<le> length (split db nome) \<or> letras_seguidas 0 nome then True
      else False)"

section \<open>The text normalizer\<close>

text \<open>
  \<open>limpar_texto\<close> (the same in both scripts): the ligatures U+FB01 and U+FB02 become
  \<open>fi\<close> and \<open>fl\<close>, the line separator U+2028 becomes a space, and the result is put in
  the form NFKC.
\<close>

definition limpar_texto :: "unicode_db \<Rightarrow> ustr \<Rightarrow> ustr" where
  "limpar_texto db texto =
     (if texto = [] then []
      else nfkc db (replace [8232] (u '' '')
                     (replace [64258] (u ''fl'') (replace [64257] (u ''fi'') texto))))"

section \<open>Exceptions, dictionaries, \<open>min\<close> and \<open>max\<close>\<close>

text \<open>
  The exception that the extractors can meet: \<open>float\<close> raises \<open>ValueError\<close> on a string
  that is not a number, and so do \<open>min\<close> and \<open>max\<close> on an empty sequence.
\<close>

datatype py_error = ValueError

text \<open>
  A \<open>dict\<close> keeps its keys in the order of their first insertion, and \<open>values()\<close> follows
  that order: it is an association list. \<open>d[k] = v\<close> replaces the value of a key in place
  and puts a new key at the end.
\<close>

fun dict_set :: "'k \<Rightarrow> 'v \<Rightarrow> ('k \<times> 'v) list \<Rightarrow> ('k \<times> 'v) list" where
  "dict_set k v [] = [(k, v)]"
| "dict_set k v ((k', v') # d) = (if k' = k then (k, v) # d else (k', v') # dict_set k v d)"

text \<open>
  \<open>min(xs, key=f)\<close> and \<open>max(xs, key=f)\<close> return the first element with the least,
  respectively the greatest key.
\<close>

fun primeiro_min :: "('a \<Rightarrow> nat) \<Rightarrow> 'a \<Rightarrow> 'a list \<Rightarrow> 'a" where
  "primeiro_min f best [] = best"
| "primeiro_min f best (x # xs) = primeiro_min f (if f x < f best then x else best) xs"

fun primeiro_max :: "('a \<Rightarrow> nat) \<Rightarrow> 'a \<Rightarrow> 'a list \<Rightarrow> 'a" where
  "primeiro_max f best [] = best"
| "primeiro_max f best (x # xs) = primeiro_max f (if f best < f x then x else best) xs"

definition py_min :: "('a \<Rightarrow> nat) \<Rightarrow> 'a list \<Rightarrow> py_error + 'a" where
  "py_min f xs = (case xs of [] \<Rightarrow> Inl ValueError | x # xs' \<Rightarrow> Inr (primeiro_min f x xs'))"

definition py_max :: "('a \<Rightarrow> nat) \<Rightarrow> 'a list \<Rightarrow> py_error + 'a" where
  "py_max f xs = (case xs of [] \<Rightarrow> Inl ValueError | x # xs' \<Rightarrow> Inr (primeiro_max f x xs'))"

section \<open>The amount: candidates and the choice among them\<close>

text \<open>
  \<open>float(s)\<close> on the strings that \<open>extrair_valor\<close> passes to it, which are made of decimal
  digits and dots: a number has at least one digit and at most one dot. The value is the
  exact decimal number; the rounding to a binary double is not modelled, so two candidates
  count as the same value when their decimal values are equal.
\<close>

definition valor_digitos :: "unicode_db \<Rightarrow> ustr \<Rightarrow> nat" where
  "valor_digitos db ds = foldl (\<lambda>n c. 10 * n + (case decimal db c of Some d \<Rightarrow> d | None \<Rightarrow> 0)) 0 ds"

definition py_float :: "unicode_db \<Rightarrow> ustr \<Rightarrow> py_error + rat" where
  "py_float db s =
     (let inteira = takeWhile (\<lambda>c. c \<noteq> 46) s;
          resto = dropWhile (\<lambda>c. c \<noteq> 46) s;
          fracao = (case resto of [] \<Rightarrow> [] | ponto # ds \<Rightarrow> ds)
      in if inteira @ fracao = [] \<or> \<not> list_all (\<lambda>c. decimal db c \<noteq> None) (inteira @ fracao)
         then Inl ValueError
         else Inr (of_nat (valor_digitos db (inteira @ fracao)) / 10 ^ length fracao))"

text \<open>An entry of \<open>valores_encontrados\<close>.\<close>

record valor_cand =
  v_valor :: ustr
  v_tipo :: ustr
  v_prioridade :: nat
  v_float :: rat

text \<open>
  The body of the loop over the matches of one pattern, from the captured group on: the
  entry it appends, or \<open>None\<close> when it appends nothing (the number is not positive, or
  \<open>float\<close> raised and \<open>except: continue\<close> went on with the next match).
\<close>

definition candidato_valor :: "unicode_db \<Rightarrow> nat \<Rightarrow> ustr \<Rightarrow> ustr \<Rightarrow> valor_cand option" where
  "candidato_valor db prioridade tipo grupo =
     (let val0 = strip db grupo;
          val = (if contains (u '','') val0 \<and> contains (u ''.'') val0
                 then replace (u ''.'') [] val0 else val0);
          val_conv = replace (u '','') (u ''.'') val
      in case py_float db val_conv of
           Inl err \<Rightarrow> None
         | Inr valor_float \<Rightarrow>
             if 0 < valor_float
             then Some \<lparr> v_valor = replace (u ''.'') (u '','') val, v_tipo = tipo,
                         v_prioridade = prioridade, v_float = valor_float \<rparr>
             else None)"

text \<open>
  The two detectors that only the v16 script has keep the captured text as it is:
  \<open>val_conv = val.replace(".", "").replace(",", ".")\<close> and \<open>'valor': val\<close>.
\<close>

definition candidato_valor_bradesco :: "unicode_db \<Rightarrow> ustr \<Rightarrow> ustr \<Rightarrow> valor_cand option" where
  "candidato_valor_bradesco db tipo grupo =
     (let val = strip db grupo;
          val_conv = replace (u '','') (u ''.'') (replace (u ''.'') [] val)
      in case py_float db val_conv of
           Inl err \<Rightarrow> None
         | Inr valor_float \<Rightarrow>
             if 0 < valor_float
             then Some \<lparr> v_valor = val, v_tipo = tipo, v_prioridade = 0, v_float = valor_float \<rparr>
             else None)"

text \<open>
  The choice (the same in both scripts): \<open>unicos\<close> keeps for each value the first entry
  with the lowest priority number, and the result is the \<open>valor\<close> of the first entry of
  \<open>unicos\<close> with the lowest priority number.
\<close>

definition registrar_valor :: "(rat \<times> valor_cand) list \<Rightarrow> valor_cand \<Rightarrow> (rat \<times> valor_cand) list" where
  "registrar_valor unicos v =
     (case map_of unicos (v_float v) of
        None \<Rightarrow> dict_set (v_float v) v unicos
      | Some w \<Rightarrow> if v_prioridade v < v_prioridade w then dict_set (v_float v) v unicos
                  else unicos)"

definition unicos_valor :: "valor_cand list \<Rightarrow> (rat \<times> valor_cand) list" where
  "unicos_valor valores_encontrados = foldl registrar_valor [] valores_encontrados"

definition melhor_valor :: "valor_cand list \<Rightarrow> py_error + valor_cand" where
  "melhor_valor valores_encontrados =
     py_min v_prioridade (map snd (unicos_valor valores_encontrados))"

definition selecionar_valor :: "valor_cand list \<Rightarrow> py_error + ustr" where
  "selecionar_valor valores_encontrados =
     (if valores_encontrados \<noteq> []
      then (case melhor_valor valores_encontrados of
              Inl err \<Rightarrow> Inl err
            | Inr melhor \<Rightarrow> Inr (v_valor melhor))
      else Inr VALOR_NAO_ENCONTRADO)"

section \<open>The beneficiary: the choice among the candidates\<close>

text \<open>An entry of \<open>candidatos\<close>.\<close>

record candidato =
  c_nome :: ustr
  c_score :: nat
  c_metodo :: ustr

text \<open>
  The final decision (the same in both scripts): \<open>unicos\<close> keeps for each
  \<open>nome.upper().strip()\<close> the first candidate with the highest score, and the result is the
  \<open>nome\<close> of the first entry of \<open>unicos\<close> with the highest score.
\<close>

definition nome_norm :: "unicode_db \<Rightarrow> candidato \<Rightarrow> ustr" where
  "nome_norm db c = strip db (str_upper db (c_nome c))"

definition registrar_candidato ::
  "unicode_db \<Rightarrow> (ustr \<times> candidato) list \<Rightarrow> candidato \<Rightarrow> (ustr \<times> candidato) list" where
  "registrar_candidato db unicos c =
     (case map_of unicos (nome_norm db c) of
        None \<Rightarrow> dict_set (nome_norm db c) c unicos
      | Some d \<Rightarrow> if c_score d < c_score c then dict_set (nome_norm db c) c unicos
                  else unicos)"

definition unicos_candidatos :: "unicode_db \<Rightarrow> candidato list \<Rightarrow> (ustr \<times> candidato) list" where
  "unicos_candidatos db candidatos = foldl (registrar_candidato db) [] candidatos"

definition melhor_candidato :: "unicode_db \<Rightarrow> candidato list \<Rightarrow> py_error + candidato" where
  "melhor_candidato db candidatos = py_max c_score (map snd (unicos_candidatos db candidatos))"

definition decisao_final :: "unicode_db \<Rightarrow> candidato list \<Rightarrow> py_error + ustr" where
  "decisao_final db candidatos =
     (if candidatos \<noteq> []
      then (case melhor_candidato db candidatos of
              Inl err \<Rightarrow> Inl err
            | Inr melhor \<Rightarrow> Inr (c_nome melhor))
      else Inr FORNECEDOR_DESCONHECIDO)"

section \<open>Auxiliary notions for the proofs\<close>

text \<open>The elements of a list in the order of their first occurrences.\<close>

definition primeiras :: "'a list \<Rightarrow> 'a list" where
  "primeiras xs = rev (remdups (rev xs))"

text \<open>
  Both extractors fill \<open>unicos\<close> by the same loop; \<open>registrar\<close> is that loop's body for a
  key function and a rank that is better when lower.
\<close>

definition registrar :: "('a \<Rightarrow> 'k) \<Rightarrow> ('a \<Rightarrow> int) \<Rightarrow> ('k \<times> 'a) list \<Rightarrow> 'a \<Rightarrow> ('k \<times> 'a) list" where
  "registrar key rank unicos c =
     (case map_of unicos (key c) of
        None \<Rightarrow> dict_set (key c) c unicos
      | Some d \<Rightarrow> if rank c < rank d then dict_set (key c) c unicos else unicos)"

text \<open>
  An entry of \<open>unicos\<close> is right for the candidates \<open>cs\<close>: it is one of them, it is
  filed under its own key, and no candidate with that key has a better rank.
\<close>

definition grupo_ok :: "('a \<Rightarrow> 'k) \<Rightarrow> ('a \<Rightarrow> int) \<Rightarrow> 'a list \<Rightarrow> 'k \<times> 'a \<Rightarrow> bool" where
  "grupo_ok key rank cs p =
     (key (snd p) = fst p \<and> snd p \<in> set cs
      \<and> (\<forall>c \<in> set cs. key c = fst p \<longrightarrow> rank (snd p) \<le> rank c))"

section \<open>File names: lengths\<close>

lemma length_str_nat_pos: "0 < length (str_nat n)"
  by (subst str_nat.simps) simp

lemma FORNECEDOR_DESCONHECIDO_length: "length FORNECEDOR_DESCONHECIDO = 23"
  by (simp add: FORNECEDOR_DESCONHECIDO_def u_def)

lemma sanitize_filename_nonempty: "sanitize_filename db name \<noteq> []"
  by (simp add: sanitize_filename_def Let_def FORNECEDOR_DESCONHECIDO_def u_def)

lemma sanitize_filename_length: "length (sanitize_filename db name) \<le> MAX_NAME_LEN"
  by (simp add: sanitize_filename_def Let_def FORNECEDOR_DESCONHECIDO_length MAX_NAME_LEN_def)

lemma montar_nome_length:
  "length (montar_nome db benef valor contador snippet) =
     (if contador > 1 then length PIX_PREFIX + length (str_nat contador) + 3 else 0)
     + length (sanitize_filename db benef) + 3
     + (if snippet \<noteq> [] then length snippet + 3 else 0)
     + length (if valor \<noteq> [] then valor else VALOR_NAO_ENCONTRADO) + 4"
  by (simp add: montar_nome_def Let_def u_def)

lemma VALOR_NAO_ENCONTRADO_length: "length VALOR_NAO_ENCONTRADO = 20"
  by (simp add: VALOR_NAO_ENCONTRADO_def u_def)

lemma montar_nome_longer: 
  "length (sanitize_filename db benef) + 8 \<le> length (montar_nome db benef valor contador snippet)"
proof -
  have "1 \<le> length (if valor \<noteq> [] then valor else VALOR_NAO_ENCONTRADO)"
    by (cases valor) (simp_all add: VALOR_NAO_ENCONTRADO_length)
  then show ?thesis
    unfolding montar_nome_length by linarith
qed

text \<open>
  C10. Only the beneficiary is cut to \<open>MAX_NAME_LEN = 60\<close>: \<open>sanitize_filename\<close> always
  returns between 1 and 60 code points, and \<open>montar_nome\<close> adds to it the separator, the
  snippet, the amount, the occurrence prefix and the extension without cutting again. Its
  result is always at least 8 code points longer than the sanitized beneficiary, and for a
  beneficiary of 70 letters \<open>A\<close> with the amount \<open>8.000,00\<close> it has 75 code points.
\<close>

theorem montar_nome_not_retruncated:
  "sanitize_filename db benef \<noteq> []
   \<and> length (sanitize_filename db benef) \<le> MAX_NAME_LEN
   \<and> MAX_NAME_LEN = 60
   \<and> length (montar_nome db benef valor contador snippet) =
       (if contador > 1 then length PIX_PREFIX + length (str_nat contador) + 3 else 0)
       + length (sanitize_filename db benef) + 3
       + (if snippet \<noteq> [] then length snippet + 3 else 0)
       + length (if valor \<noteq> [] then valor else VALOR_NAO_ENCONTRADO) + 4
   \<and> length (sanitize_filename db benef) + 8
       \<le> length (montar_nome db benef valor contador snippet)
   \<and> sanitize_filename latin1 (replicate 70 65) = replicate 60 65
   \<and> length (montar_nome latin1 (replicate 70 65) (u ''8.000,00'') 1 []) = 75"
proof -
  have a: "sanitize_filename latin1 (replicate 70 65) = replicate 60 65"
    by code_simp
  have b: "length (montar_nome latin1 (replicate 70 65) (u ''8.000,00'') 1 []) = 75"
    by code_simp
  show ?thesis
    using a b sanitize_filename_nonempty [of db benef] sanitize_filename_length [of db benef]
      montar_nome_length [of db benef valor contador snippet]
      montar_nome_longer [of db benef valor contador snippet]
    by (simp only: MAX_NAME_LEN_def simp_thms)
qed

section \<open>The occurrence counter: numbering\<close>

lemma numerar_nth:
  "i < length ks \<Longrightarrow>
   numerar c ks ! i = c (ks ! i) + Suc (length (filter (\<lambda>k. k = ks ! i) (take i ks)))"
proof (induction ks arbitrary: c i)
  case Nil
  then show ?case by simp
next
  case (Cons k ks)
  show ?case
  proof (cases i)
    case 0
    then show ?thesis by (simp add: proxima_ocorrencia_def)
  next
    case (Suc j)
    with Cons.prems have j: "j < length ks" by simp
    define c' where "c' = c(k := c k + 1)"
    have step: "numerar c (k # ks) ! i = numerar c' ks ! j"
      by (simp add: proxima_ocorrencia_def c'_def Suc)
    have ih: "numerar c' ks ! j = c' (ks ! j) + Suc (length (filter (\<lambda>x. x = ks ! j) (take j ks)))"
      by (rule Cons.IH [OF j])
    have c': "c' (ks ! j) = c (ks ! j) + (if k = ks ! j then 1 else 0)"
      by (simp add: c'_def)
    show ?thesis
      unfolding step ih c' by (simp add: Suc)
  qed
qed

lemma length_numerar: "length (numerar c ks) = length ks"
  by (induction ks arbitrary: c) (simp_all add: proxima_ocorrencia_def)

lemma montar_nome_prefix:
  "montar_nome db benef valor cnt snippet =
     (if cnt > 1 then PIX_PREFIX @ str_nat cnt @ u '' - '' else []) @
     montar_nome db benef valor 1 snippet"
  by (simp add: montar_nome_def Let_def)

text \<open>
  C6. In a run that starts with the empty counter, the page at position \<open>i\<close> gets the
  occurrence number one plus the number of earlier pages with the same key
  \<open>(empresa, beneficiario, valor)\<close>: the first page of a key gets 1, and each later page of
  that key gets one more than the previous one. \<open>montar_nome\<close> puts the prefix, the marker
  \<open>N\<close> followed by the occurrence number and \<open>" - "\<close>, before the name of the first
  occurrence exactly when the occurrence number is above 1. Three pages with the same result
  get the numbers 1, 2, 3 and only the second and the third name carry the prefix.
\<close>

theorem occurrence_numbering:
  "(i < length ks \<longrightarrow>
      numerar contador_inicial ks ! i = Suc (length (filter (\<lambda>k. k = ks ! i) (take i ks))))
   \<and> length (numerar contador_inicial ks) = length ks
   \<and> montar_nome db benef valor cnt snippet =
       (if cnt > 1 then PIX_PREFIX @ str_nat cnt @ u '' - '' else []) @
       montar_nome db benef valor 1 snippet
   \<and> numerar contador_inicial
       [(u ''URBANBOX'', u ''MARIO PASTORE'', u ''8000,00''),
        (u ''URBANBOX'', u ''MARIO PASTORE'', u ''8000,00''),
        (u ''URBANBOX'', u ''MARIO PASTORE'', u ''8000,00'')] = [1, 2, 3]
   \<and> nomear latin1 contador_inicial
       [(u ''URBANBOX'', u ''MARIO PASTORE'', u ''8000,00''),
        (u ''URBANBOX'', u ''MARIO PASTORE'', u ''8000,00''),
        (u ''URBANBOX'', u ''MARIO PASTORE'', u ''8000,00'')] =
       [u ''MARIO_PASTORE - 8000,00.pdf'',
        u ''N2 - MARIO_PASTORE - 8000,00.pdf'',
        u ''N3 - MARIO_PASTORE - 8000,00.pdf'']"
proof -
  have a: "i < length ks \<longrightarrow>
      numerar contador_inicial ks ! i = Suc (length (filter (\<lambda>k. k = ks ! i) (take i ks)))"
    using numerar_nth [of i ks contador_inicial] by (simp add: contador_inicial_def)
  have b: "numerar contador_inicial
       [(u ''URBANBOX'', u ''MARIO PASTORE'', u ''8000,00''),
        (u ''URBANBOX'', u ''MARIO PASTORE'', u ''8000,00''),
        (u ''URBANBOX'', u ''MARIO PASTORE'', u ''8000,00'')] = [1, 2, 3]"
    by code_simp
  have c: "nomear latin1 contador_inicial
       [(u ''URBANBOX'', u ''MARIO PASTORE'', u ''8000,00''),
        (u ''URBANBOX'', u ''MARIO PASTORE'', u ''8000,00''),
        (u ''URBANBOX'', u ''MARIO PASTORE'', u ''8000,00'')] =
       [u ''MARIO_PASTORE - 8000,00.pdf'',
        u ''N2 - MARIO_PASTORE - 8000,00.pdf'',
        u ''N3 - MARIO_PASTORE - 8000,00.pdf'']"
    by code_simp
  show ?thesis
    using a b c length_numerar [of contador_inicial ks]
      montar_nome_prefix [of db benef valor cnt snippet]
    by (simp only: simp_thms)
qed

theorem occurrence_numbering_witness:
  "(2::nat) < length [(u ''A'', u ''B'', u ''1,00''), (u ''C'', u ''D'', u ''2,00''),
                      (u ''A'', u ''B'', u ''1,00'')]
   \<and> numerar contador_inicial
        [(u ''A'', u ''B'', u ''1,00''), (u ''C'', u ''D'', u ''2,00''),
         (u ''A'', u ''B'', u ''1,00'')] ! 2 = 2"
proof -
  have h: "(2::nat) < length [(u ''A'', u ''B'', u ''1,00''), (u ''C'', u ''D'', u ''2,00''),
                      (u ''A'', u ''B'', u ''1,00'')]"
    by simp
  have f: "Suc (length (filter (\<lambda>k. k = [(u ''A'', u ''B'', u ''1,00''), (u ''C'', u ''D'', u ''2,00''),
                      (u ''A'', u ''B'', u ''1,00'')] ! 2) (take 2 [(u ''A'', u ''B'', u ''1,00''), (u ''C'', u ''D'', u ''2,00''),
                      (u ''A'', u ''B'', u ''1,00'')]))) = 2"
    by code_simp
  from occurrence_numbering [of 2 "[(u ''A'', u ''B'', u ''1,00''), (u ''C'', u ''D'', u ''2,00''),
                      (u ''A'', u ''B'', u ''1,00'')]"] h f
  show ?thesis by (simp only: simp_thms)
qed

section \<open>The name validator: what it rejects\<close>

lemma campo_tecnico_iff:
  "campo_tecnico s rs = (\<exists>r \<in> set rs. s = r \<or> prefix (r @ u '' '') s)"
  by (induction rs) auto

lemma empresa_do_sistema_san_iff:
  "empresa_do_sistema_san s es = (\<exists>e \<in> set es. contains e s)"
  by (induction es) auto

lemma empresa_do_sistema_v16_iff:
  "empresa_do_sistema_v16 s es =
     (\<exists>e \<in> set es. contains e s \<and>
        \<not> (e = u ''SICOOB'' \<and> 25 < length s \<and> \<not> contains (u ''SISTEMA DE COOPERATIVAS'') s))"
  by (induction es) auto

lemma tem_letra_iff: "tem_letra nome = (\<exists>c \<in> set nome. ascii_letter c)"
  by (simp add: tem_letra_def list_ex_iff)

lemma validar_nome_v16_iff:
  "validar_nome_v16 db nome min_len =
     (nome \<noteq> [] \<and> min_len \<le> length nome \<and> tem_letra nome \<and> \<not> so_digitos db nome
      \<and> \<not> empresa_do_sistema_v16 (str_upper db nome) empresas_sistema_v16
      \<and> \<not> campo_tecnico (str_lower db nome) rejeitar_v16
      \<and> (2 \<le> length (split db nome) \<or> letras_seguidas 0 nome))"
  unfolding validar_nome_v16_def by (simp add: not_less)

lemma validar_nome_san_iff:
  "validar_nome_san db nome min_len =
     (nome \<noteq> [] \<and> min_len \<le> length nome \<and> tem_letra nome \<and> \<not> so_digitos db nome
      \<and> \<not> empresa_do_sistema_san (str_upper db nome) empresas_sistema_san
      \<and> \<not> campo_tecnico (str_lower db nome) rejeitar_san
      \<and> (2 \<le> length (split db nome) \<or> letras_seguidas 0 nome))"
  unfolding validar_nome_san_def by (simp add: not_less)

lemma sem_letra_rejeitado:
  "list_all (\<lambda>c. \<not> ascii_letter c) nome \<Longrightarrow>
   \<not> validar_nome_v16 db nome n \<and> \<not> validar_nome_san db nome n"
  by (simp add: validar_nome_v16_iff validar_nome_san_iff tem_letra_iff list_all_iff)

lemma curto_rejeitado:
  "length nome < n \<Longrightarrow> \<not> validar_nome_v16 db nome n \<and> \<not> validar_nome_san db nome n"
  by (simp add: validar_nome_v16_iff validar_nome_san_iff)

lemma campo_tecnico_rejeitado_v16:
  "r \<in> set rejeitar_v16 \<Longrightarrow> str_lower db nome = r \<or> prefix (r @ u '' '') (str_lower db nome) \<Longrightarrow>
   \<not> validar_nome_v16 db nome n"
  unfolding validar_nome_v16_iff campo_tecnico_iff by blast

lemma campo_tecnico_rejeitado_san:
  "r \<in> set rejeitar_san \<Longrightarrow> str_lower db nome = r \<or> prefix (r @ u '' '') (str_lower db nome) \<Longrightarrow>
   \<not> validar_nome_san db nome n"
  unfolding validar_nome_san_iff campo_tecnico_iff by blast

lemma empresa_rejeitada_san:
  "e \<in> set empresas_sistema_san \<Longrightarrow> contains e (str_upper db nome) \<Longrightarrow>
   \<not> validar_nome_san db nome n"
  unfolding validar_nome_san_iff empresa_do_sistema_san_iff by blast

lemma empresa_rejeitada_v16:
  "e \<in> set empresas_sistema_v16 \<Longrightarrow> contains e (str_upper db nome) \<Longrightarrow>
   \<not> (e = u ''SICOOB'' \<and> 25 < length (str_upper db nome)
      \<and> \<not> contains (u ''SISTEMA DE COOPERATIVAS'') (str_upper db nome)) \<Longrightarrow>
   \<not> validar_nome_v16 db nome n"
  unfolding validar_nome_v16_iff empresa_do_sistema_v16_iff by blast

lemma sicoob_distinct:
  "u ''FARMAUSA'' \<noteq> u ''SICOOB''" "u ''URBANBOX'' \<noteq> u ''SICOOB''"
  "u ''PHARMACEUTICAL'' \<noteq> u ''SICOOB''" "u ''LIFE SCIENCE'' \<noteq> u ''SICOOB''"
  by (simp_all add: u_def)

lemma sicoob_permitido:
  assumes "contains (u ''SICOOB'') U" "25 < length U"
    "\<not> contains (u ''SISTEMA DE COOPERATIVAS'') U"
    "\<not> contains (u ''FARMAUSA'') U" "\<not> contains (u ''URBANBOX'') U"
    "\<not> contains (u ''PHARMACEUTICAL'') U" "\<not> contains (u ''LIFE SCIENCE'') U"
  shows "\<not> empresa_do_sistema_v16 U empresas_sistema_v16"
  using assms by (simp add: empresas_sistema_v16_def)

text \<open>
  C5, as the scripts have it. Both validators reject a name with no ASCII letter (so every
  name made of digits and punctuation only), a name shorter than \<open>min_len\<close>, and a name
  whose lower-case form is a technical field name or starts with one followed by a space.
  The validator of \<open>renomear_comprovantes_sanitized.py\<close> rejects every name whose upper-case
  form contains one of its own companies' names. The validator of the v16 script rejects
  such a name too, except that \<open>SICOOB\<close> does not count when the upper-cased name has more
  than 25 code points and does not contain \<open>SISTEMA DE COOPERATIVAS\<close>. Both accept
  \<open>MARIO PASTORE\<close> with \<open>min_len = 5\<close>.
\<close>

theorem validar_nome_rejects:
  "(list_all (\<lambda>c. \<not> ascii_letter c) nome \<longrightarrow>
      \<not> validar_nome_v16 db nome n \<and> \<not> validar_nome_san db nome n)
   \<and> (length nome < n \<longrightarrow> \<not> validar_nome_v16 db nome n \<and> \<not> validar_nome_san db nome n)
   \<and> (r \<in> set rejeitar_v16
        \<and> (str_lower db nome = r \<or> prefix (r @ u '' '') (str_lower db nome)) \<longrightarrow>
      \<not> validar_nome_v16 db nome n)
   \<and> (r \<in> set rejeitar_san
        \<and> (str_lower db nome = r \<or> prefix (r @ u '' '') (str_lower db nome)) \<longrightarrow>
      \<not> validar_nome_san db nome n)
   \<and> (e \<in> set empresas_sistema_san \<and> contains e (str_upper db nome) \<longrightarrow>
      \<not> validar_nome_san db nome n)
   \<and> (e \<in> set empresas_sistema_v16 \<and> contains e (str_upper db nome)
        \<and> \<not> (e = u ''SICOOB'' \<and> 25 < length (str_upper db nome)
              \<and> \<not> contains (u ''SISTEMA DE COOPERATIVAS'') (str_upper db nome)) \<longrightarrow>
      \<not> validar_nome_v16 db nome n)
   \<and> validar_nome_v16 latin1 (u ''MARIO PASTORE'') 5
   \<and> validar_nome_san latin1 (u ''MARIO PASTORE'') 5"
proof -
  have a: "validar_nome_v16 latin1 (u ''MARIO PASTORE'') 5"
    by code_simp
  have b: "validar_nome_san latin1 (u ''MARIO PASTORE'') 5"
    by code_simp
  show ?thesis
    using a b sem_letra_rejeitado [of nome db n] curto_rejeitado [of nome n db]
      campo_tecnico_rejeitado_v16 [of r db nome n] campo_tecnico_rejeitado_san [of r db nome n]
      empresa_rejeitada_san [of e db nome n] empresa_rejeitada_v16 [of e db nome n]
    by blast
qed

theorem validar_nome_rejects_witness:
  "\<not> validar_nome_v16 latin1 (u ''123.456.789-00'') 5
   \<and> \<not> validar_nome_san latin1 (u ''123.456.789-00'') 5
   \<and> \<not> validar_nome_v16 latin1 (u ''LTDA'') 5
   \<and> \<not> validar_nome_san latin1 (u ''LTDA'') 5
   \<and> \<not> validar_nome_v16 latin1 (u ''Valor total'') 5
   \<and> \<not> validar_nome_san latin1 (u ''Valor total'') 5
   \<and> \<not> validar_nome_san latin1 (u ''Your_Company Ltda'') 5
   \<and> \<not> validar_nome_v16 latin1 (u ''Farmausa Life Science Ltda'') 5"
proof -
  have h1: "list_all (\<lambda>c. \<not> ascii_letter c) (u ''123.456.789-00'')"
    by code_simp
  have h2: "length (u ''LTDA'') < 5"
    by code_simp
  have h3: "u ''valor'' \<in> set rejeitar_v16 \<and>
      (str_lower latin1 (u ''Valor total'') = u ''valor''
       \<or> prefix (u ''valor'' @ u '' '') (str_lower latin1 (u ''Valor total'')))"
    by code_simp
  have h4: "u ''valor'' \<in> set rejeitar_san \<and>
      (str_lower latin1 (u ''Valor total'') = u ''valor''
       \<or> prefix (u ''valor'' @ u '' '') (str_lower latin1 (u ''Valor total'')))"
    by code_simp
  have h5: "u ''YOUR_COMPANY'' \<in> set empresas_sistema_san
      \<and> contains (u ''YOUR_COMPANY'') (str_upper latin1 (u ''Your_Company Ltda''))"
    by code_simp
  have h6: "u ''FARMAUSA'' \<in> set empresas_sistema_v16
      \<and> contains (u ''FARMAUSA'') (str_upper latin1 (u ''Farmausa Life Science Ltda''))
      \<and> \<not> (u ''FARMAUSA'' = u ''SICOOB''
            \<and> 25 < length (str_upper latin1 (u ''Farmausa Life Science Ltda''))
            \<and> \<not> contains (u ''SISTEMA DE COOPERATIVAS'')
                   (str_upper latin1 (u ''Farmausa Life Science Ltda'')))"
    by code_simp
  from h1 validar_nome_rejects [where nome = "u ''123.456.789-00''" and db = latin1 and n = 5]
  have c1: "\<not> validar_nome_v16 latin1 (u ''123.456.789-00'') 5
            \<and> \<not> validar_nome_san latin1 (u ''123.456.789-00'') 5"
    by blast
  from h2 validar_nome_rejects [where nome = "u ''LTDA''" and db = latin1 and n = 5]
  have c2: "\<not> validar_nome_v16 latin1 (u ''LTDA'') 5 \<and> \<not> validar_nome_san latin1 (u ''LTDA'') 5"
    by blast
  from h3 h4 validar_nome_rejects [where nome = "u ''Valor total''" and db = latin1 and n = 5
      and r = "u ''valor''"]
  have c3: "\<not> validar_nome_v16 latin1 (u ''Valor total'') 5
            \<and> \<not> validar_nome_san latin1 (u ''Valor total'') 5"
    by blast
  from h5 validar_nome_rejects [where nome = "u ''Your_Company Ltda''" and db = latin1 and n = 5
      and e = "u ''YOUR_COMPANY''"]
  have c4: "\<not> validar_nome_san latin1 (u ''Your_Company Ltda'') 5"
    by blast
  from h6 validar_nome_rejects [where nome = "u ''Farmausa Life Science Ltda''" and db = latin1
      and n = 5 and e = "u ''FARMAUSA''"]
  have c5: "\<not> validar_nome_v16 latin1 (u ''Farmausa Life Science Ltda'') 5"
    by blast
  from c1 c2 c3 c4 c5 show ?thesis by blast
qed

text \<open>
  C5 as stated fails on the v16 script: \<open>COOPERATIVA DE CREDITO SICOOB CENTRO\<close> contains the
  configured name \<open>SICOOB\<close> and is accepted.
\<close>

theorem validar_nome_inhouse_counterexample:
  "u ''SICOOB'' \<in> set empresas_sistema_v16
   \<and> contains (u ''SICOOB'') (str_upper latin1 (u ''COOPERATIVA DE CREDITO SICOOB CENTRO''))
   \<and> validar_nome_v16 latin1 (u ''COOPERATIVA DE CREDITO SICOOB CENTRO'') 5"
  by code_simp

text \<open>
  C9. In the v16 validator each of \<open>FARMAUSA\<close>, \<open>URBANBOX\<close>, \<open>PHARMACEUTICAL\<close> and
  \<open>LIFE SCIENCE\<close> in the upper-cased name makes the validator reject it, whatever else the
  name holds. \<open>SICOOB\<close> makes it reject the name when the upper-cased name has at most 25
  code points or contains \<open>SISTEMA DE COOPERATIVAS\<close>. A name with \<open>SICOOB\<close>, more than 25
  code points, without \<open>SISTEMA DE COOPERATIVAS\<close> and without the other four names is
  accepted exactly when it passes the remaining rules: the minimum length, an ASCII letter,
  not digits and punctuation only, no technical field name in front, and two words or five
  letters in a row.
\<close>

theorem validar_nome_sicoob_exception:
  "(e \<in> set [u ''FARMAUSA'', u ''URBANBOX'', u ''PHARMACEUTICAL'', u ''LIFE SCIENCE'']
      \<and> contains e (str_upper db nome) \<longrightarrow> \<not> validar_nome_v16 db nome n)
   \<and> (contains (u ''SICOOB'') (str_upper db nome)
      \<and> (length (str_upper db nome) \<le> 25
          \<or> contains (u ''SISTEMA DE COOPERATIVAS'') (str_upper db nome)) \<longrightarrow>
      \<not> validar_nome_v16 db nome n)
   \<and> (contains (u ''SICOOB'') (str_upper db nome)
      \<and> 25 < length (str_upper db nome)
      \<and> \<not> contains (u ''SISTEMA DE COOPERATIVAS'') (str_upper db nome)
      \<and> \<not> contains (u ''FARMAUSA'') (str_upper db nome)
      \<and> \<not> contains (u ''URBANBOX'') (str_upper db nome)
      \<and> \<not> contains (u ''PHARMACEUTICAL'') (str_upper db nome)
      \<and> \<not> contains (u ''LIFE SCIENCE'') (str_upper db nome) \<longrightarrow>
      validar_nome_v16 db nome n =
        (nome \<noteq> [] \<and> n \<le> length nome \<and> tem_letra nome \<and> \<not> so_digitos db nome
         \<and> \<not> campo_tecnico (str_lower db nome) rejeitar_v16
         \<and> (2 \<le> length (split db nome) \<or> letras_seguidas 0 nome)))
   \<and> validar_nome_v16 latin1 (u ''COOPERATIVA DE CREDITO SICOOB CENTRO'') 5
   \<and> \<not> validar_nome_v16 latin1 (u ''COOPERATIVA SICOOB CENTRO'') 5
   \<and> \<not> validar_nome_v16 latin1 (u ''SICOOB SISTEMA DE COOPERATIVAS DE CREDITO DO BRASIL'') 5"
proof -
  have a: "e \<in> set [u ''FARMAUSA'', u ''URBANBOX'', u ''PHARMACEUTICAL'', u ''LIFE SCIENCE'']
      \<and> contains e (str_upper db nome) \<longrightarrow> \<not> validar_nome_v16 db nome n"
    using empresa_rejeitada_v16 [of e db nome n] sicoob_distinct
    by (auto simp: empresas_sistema_v16_def)
  have b: "contains (u ''SICOOB'') (str_upper db nome)
      \<and> (length (str_upper db nome) \<le> 25
          \<or> contains (u ''SISTEMA DE COOPERATIVAS'') (str_upper db nome)) \<longrightarrow>
      \<not> validar_nome_v16 db nome n"
    using empresa_rejeitada_v16 [of "u ''SICOOB''" db nome n]
    by (auto simp: empresas_sistema_v16_def)
  have c: "contains (u ''SICOOB'') (str_upper db nome)
      \<and> 25 < length (str_upper db nome)
      \<and> \<not> contains (u ''SISTEMA DE COOPERATIVAS'') (str_upper db nome)
      \<and> \<not> contains (u ''FARMAUSA'') (str_upper db nome)
      \<and> \<not> contains (u ''URBANBOX'') (str_upper db nome)
      \<and> \<not> contains (u ''PHARMACEUTICAL'') (str_upper db nome)
      \<and> \<not> contains (u ''LIFE SCIENCE'') (str_upper db nome) \<longrightarrow>
      validar_nome_v16 db nome n =
        (nome \<noteq> [] \<and> n \<le> length nome \<and> tem_letra nome \<and> \<not> so_digitos db nome
         \<and> \<not> campo_tecnico (str_lower db nome) rejeitar_v16
         \<and> (2 \<le> length (split db nome) \<or> letras_seguidas 0 nome))"
    using sicoob_permitido [of "str_upper db nome"]
    by (auto simp: validar_nome_v16_iff)
  have d: "validar_nome_v16 latin1 (u ''COOPERATIVA DE CREDITO SICOOB CENTRO'') 5"
    by code_simp
  have f: "\<not> validar_nome_v16 latin1 (u ''COOPERATIVA SICOOB CENTRO'') 5"
    by code_simp
  have g: "\<not> validar_nome_v16 latin1 (u ''SICOOB SISTEMA DE COOPERATIVAS DE CREDITO DO BRASIL'') 5"
    by code_simp
  from a b c d f g show ?thesis by (simp only: simp_thms)
qed

theorem validar_nome_sicoob_exception_witness:
  "\<not> validar_nome_v16 latin1 (u ''Urbanbox Comercio'') 5
   \<and> \<not> validar_nome_v16 latin1 (u ''Banco Sicoob'') 5
   \<and> validar_nome_v16 latin1 (u ''Cooperativa de Credito Sicoob Centro'') 5"
proof -
  have h1: "u ''URBANBOX'' \<in> set [u ''FARMAUSA'', u ''URBANBOX'', u ''PHARMACEUTICAL'', u ''LIFE SCIENCE'']
      \<and> contains (u ''URBANBOX'') (str_upper latin1 (u ''Urbanbox Comercio''))"
    by code_simp
  have h2: "contains (u ''SICOOB'') (str_upper latin1 (u ''Banco Sicoob''))
      \<and> (length (str_upper latin1 (u ''Banco Sicoob'')) \<le> 25
          \<or> contains (u ''SISTEMA DE COOPERATIVAS'') (str_upper latin1 (u ''Banco Sicoob'')))"
    by code_simp
  have h3: "contains (u ''SICOOB'') (str_upper latin1 (u ''Cooperativa de Credito Sicoob Centro''))
      \<and> 25 < length (str_upper latin1 (u ''Cooperativa de Credito Sicoob Centro''))
      \<and> \<not> contains (u ''SISTEMA DE COOPERATIVAS'') (str_upper latin1 (u ''Cooperativa de Credito Sicoob Centro''))
      \<and> \<not> contains (u ''FARMAUSA'') (str_upper latin1 (u ''Cooperativa de Credito Sicoob Centro''))
      \<and> \<not> contains (u ''URBANBOX'') (str_upper latin1 (u ''Cooperativa de Credito Sicoob Centro''))
      \<and> \<not> contains (u ''PHARMACEUTICAL'') (str_upper latin1 (u ''Cooperativa de Credito Sicoob Centro''))
      \<and> \<not> contains (u ''LIFE SCIENCE'') (str_upper latin1 (u ''Cooperativa de Credito Sicoob Centro''))"
    by code_simp
  have r3: "u ''Cooperativa de Credito Sicoob Centro'' \<noteq> []
      \<and> 5 \<le> length (u ''Cooperativa de Credito Sicoob Centro'')
      \<and> tem_letra (u ''Cooperativa de Credito Sicoob Centro'')
      \<and> \<not> so_digitos latin1 (u ''Cooperativa de Credito Sicoob Centro'')
      \<and> \<not> campo_tecnico (str_lower latin1 (u ''Cooperativa de Credito Sicoob Centro'')) rejeitar_v16
      \<and> (2 \<le> length (split latin1 (u ''Cooperativa de Credito Sicoob Centro''))
          \<or> letras_seguidas 0 (u ''Cooperativa de Credito Sicoob Centro''))"
    by code_simp
  from h1 validar_nome_sicoob_exception [where e = "u ''URBANBOX''" and db = latin1
      and nome = "u ''Urbanbox Comercio''" and n = 5]
  have c1: "\<not> validar_nome_v16 latin1 (u ''Urbanbox Comercio'') 5"
    by blast
  from h2 validar_nome_sicoob_exception [where db = latin1 and nome = "u ''Banco Sicoob''" and n = 5]
  have c2: "\<not> validar_nome_v16 latin1 (u ''Banco Sicoob'') 5"
    by blast
  from h3 r3 validar_nome_sicoob_exception [where db = latin1
      and nome = "u ''Cooperativa de Credito Sicoob Centro''" and n = 5]
  have c3: "validar_nome_v16 latin1 (u ''Cooperativa de Credito Sicoob Centro'') 5"
    by blast
  from c1 c2 c3 show ?thesis by blast
qed

section \<open>The text normalizer is idempotent\<close>

lemma replace_absent: "c \<notin> set s \<Longrightarrow> replace [c] new s = s"
  by (induction s) auto

lemma limpar_texto_idem:
  assumes idem: "\<And>x. nfkc db (nfkc db x) = nfkc db x"
    and lig: "\<And>x. 64257 \<notin> set (nfkc db x) \<and> 64258 \<notin> set (nfkc db x)"
    and sep: "\<And>x. 8232 \<notin> set x \<Longrightarrow> 8232 \<notin> set (nfkc db x)"
  shows "limpar_texto db (limpar_texto db s) = limpar_texto db s"
proof (cases "s = []")
  case True
  then show ?thesis by (simp add: limpar_texto_def)
next
  case False
  define y where "y = replace [8232] (u '' '') (replace [64258] (u ''fl'') (replace [64257] (u ''fi'') s))"
  have no_sep: "8232 \<notin> set (replace [8232] (u '' '') t)" for t
    by (induction t) (auto simp: u_def)
  have y: "8232 \<notin> set y"
    unfolding y_def by (rule no_sep)
  have l: "limpar_texto db s = nfkc db y"
    using False by (simp add: limpar_texto_def y_def)
  have a: "64257 \<notin> set (nfkc db y)" and b: "64258 \<notin> set (nfkc db y)"
    using lig [of y] by simp_all
  have c: "8232 \<notin> set (nfkc db y)"
    using sep [OF y] .
  have r: "replace [8232] (u '' '') (replace [64258] (u ''fl'') (replace [64257] (u ''fi'') (nfkc db y)))
        = nfkc db y"
    by (simp add: replace_absent a b c)
  show ?thesis
  proof (cases "nfkc db y = []")
    case True
    show ?thesis
      unfolding l True by (simp add: limpar_texto_def)
  next
    case False
    have "limpar_texto db (nfkc db y) = nfkc db (nfkc db y)"
      using False by (simp add: limpar_texto_def r)
    then show ?thesis
      unfolding l by (simp add: idem)
  qed
qed

text \<open>The facts about NFKC that the proof uses hold for the tables of \<open>latin1\<close>.\<close>

lemma l1_compat_cases:
  "l1_compat c = Some s \<Longrightarrow>
   s \<in> {[32], [32, 776], [97], [32, 772], [50], [51], [32, 769], [956], [32, 807], [49], [111],
        [49, 8260, 52], [49, 8260, 50], [51, 8260, 52], [102, 102], [102, 105], [102, 108],
        [102, 102, 105], [102, 102, 108], [115, 116]}"
  unfolding l1_compat_def by (auto split: if_splits)

lemma l1_compat_fixed: "l1_compat c = Some s \<Longrightarrow> concat (map l1_nfkc_char s) = s"
  by (drule l1_compat_cases) (auto simp: l1_nfkc_char_def l1_compat_def)

lemma l1_nfkc_char_idem: "concat (map l1_nfkc_char (l1_nfkc_char c)) = l1_nfkc_char c"
proof (cases "l1_compat c")
  case None
  then show ?thesis by (simp add: l1_nfkc_char_def)
next
  case (Some s)
  then show ?thesis using l1_compat_fixed [OF Some] by (simp add: l1_nfkc_char_def)
qed

lemma latin1_nfkc_idem: "nfkc latin1 (nfkc latin1 x) = nfkc latin1 x"
  by (induction x) (simp_all add: latin1_def l1_nfkc_char_idem)

lemma l1_nfkc_char_no_lig: "64257 \<notin> set (l1_nfkc_char c) \<and> 64258 \<notin> set (l1_nfkc_char c)"
proof (cases "l1_compat c")
  case None
  then have "c \<noteq> 64257 \<and> c \<noteq> 64258" by (auto simp: l1_compat_def)
  with None show ?thesis by (simp add: l1_nfkc_char_def)
next
  case (Some s)
  then show ?thesis using l1_compat_cases [OF Some] by (auto simp: l1_nfkc_char_def)
qed

lemma latin1_nfkc_no_lig: "64257 \<notin> set (nfkc latin1 x) \<and> 64258 \<notin> set (nfkc latin1 x)"
  using l1_nfkc_char_no_lig by (simp add: latin1_def)

lemma l1_nfkc_char_sep: "c \<noteq> 8232 \<Longrightarrow> 8232 \<notin> set (l1_nfkc_char c)"
proof (cases "l1_compat c")
  case None
  assume "c \<noteq> 8232"
  with None show ?thesis by (simp add: l1_nfkc_char_def)
next
  case (Some s)
  then show ?thesis using l1_compat_cases [OF Some] by (auto simp: l1_nfkc_char_def)
qed

lemma latin1_nfkc_sep: "8232 \<notin> set x \<Longrightarrow> 8232 \<notin> set (nfkc latin1 x)"
proof (induction x)
  case Nil
  then show ?case by (simp add: latin1_def)
next
  case (Cons c x)
  then have "c \<noteq> 8232" and "8232 \<notin> set x" by auto
  then show ?case
    using Cons.IH l1_nfkc_char_sep [of c] by (simp add: latin1_def)
qed

text \<open>
  C7. \<open>limpar_texto\<close> returns the empty string on the empty string, and it is a total
  function: none of its steps (\<open>str.replace\<close>, \<open>unicodedata.normalize\<close>) can fail on a
  string. It is idempotent for every database whose NFKC is idempotent, produces neither of
  the ligatures U+FB01 and U+FB02, and produces the line separator U+2028 only from a text
  that has it; the Unicode standard gives NFKC these three properties, since a normal form
  is stable under its own normalization, the two ligatures have compatibility
  decompositions, and no decomposition contains U+2028.
\<close>

theorem limpar_texto_idempotent:
  assumes "\<forall>x. nfkc db (nfkc db x) = nfkc db x"
    and "\<forall>x. 64257 \<notin> set (nfkc db x) \<and> 64258 \<notin> set (nfkc db x)"
    and "\<forall>x. 8232 \<notin> set x \<longrightarrow> 8232 \<notin> set (nfkc db x)"
  shows "limpar_texto db (limpar_texto db s) = limpar_texto db s \<and> limpar_texto db [] = []"
proof
  show "limpar_texto db (limpar_texto db s) = limpar_texto db s"
    using assms by (intro limpar_texto_idem) auto
  show "limpar_texto db [] = []"
    by (simp add: limpar_texto_def)
qed

theorem limpar_texto_idempotent_witness:
  "limpar_texto latin1 (limpar_texto latin1 ([80, 73, 88, 8232, 64257, 109, 160, 97, 64258, 111, 114]))
     = limpar_texto latin1 ([80, 73, 88, 8232, 64257, 109, 160, 97, 64258, 111, 114])
   \<and> limpar_texto latin1 ([80, 73, 88, 8232, 64257, 109, 160, 97, 64258, 111, 114])
     = u ''PIX fim aflor''
   \<and> limpar_texto latin1 [] = []"
proof -
  have h1: "\<forall>x. nfkc latin1 (nfkc latin1 x) = nfkc latin1 x"
    using latin1_nfkc_idem by blast
  have h2: "\<forall>x. 64257 \<notin> set (nfkc latin1 x) \<and> 64258 \<notin> set (nfkc latin1 x)"
    using latin1_nfkc_no_lig by blast
  have h3: "\<forall>x. 8232 \<notin> set x \<longrightarrow> 8232 \<notin> set (nfkc latin1 x)"
    using latin1_nfkc_sep by blast
  have v: "limpar_texto latin1 ([80, 73, 88, 8232, 64257, 109, 160, 97, 64258, 111, 114])
     = u ''PIX fim aflor''"
    by code_simp
  from limpar_texto_idempotent
         [OF h1 h2 h3, of "[80, 73, 88, 8232, 64257, 109, 160, 97, 64258, 111, 114]"] v
  show ?thesis by blast
qed

section \<open>Dictionaries and first extrema\<close>


lemma primeiras_snoc:
  "primeiras (xs @ [x]) = (if x \<in> set xs then primeiras xs else primeiras xs @ [x])"
  by (simp add: primeiras_def)

lemma primeiras_Nil: "primeiras [] = []"
  by (simp add: primeiras_def)

lemma set_primeiras: "set (primeiras xs) = set xs"
  by (simp add: primeiras_def)

lemma distinct_primeiras: "distinct (primeiras xs)"
  by (simp add: primeiras_def)

lemma set_takeWhile_append: "set (takeWhile P xs) \<subseteq> set (takeWhile P (xs @ ys))"
  by (induction xs) auto

lemma takeWhile_neq_snoc: "x \<notin> set ks \<Longrightarrow> takeWhile (\<lambda>z. z \<noteq> x) (ks @ [x]) = ks"
  by (induction ks) auto

lemma primeiras_order:
  "primeiras ks = as @ a # bs \<Longrightarrow> b \<in> set bs \<Longrightarrow> a \<in> set (takeWhile (\<lambda>x. x \<noteq> b) ks)"
proof (induction ks arbitrary: bs rule: rev_induct)
  case Nil
  then show ?case by (simp add: primeiras_Nil)
next
  case (snoc x ks)
  show ?case
  proof (cases "x \<in> set ks")
    case True
    with snoc.prems have "primeiras ks = as @ a # bs"
      by (simp add: primeiras_snoc)
    from snoc.IH [OF this snoc.prems(2)] show ?thesis
      using set_takeWhile_append [of "\<lambda>x. x \<noteq> b" ks "[x]"] by blast
  next
    case False
    with snoc.prems have eq: "primeiras ks @ [x] = as @ a # bs"
      by (simp add: primeiras_snoc)
    show ?thesis
    proof (cases bs rule: rev_cases)
      case Nil
      with snoc.prems show ?thesis by simp
    next
      case (snoc bs' y)
      with eq have p: "primeiras ks = as @ a # bs'" and y: "y = x"
        by simp_all
      show ?thesis
      proof (cases "b \<in> set bs'")
        case True
        from snoc.IH [OF p True] show ?thesis
          using set_takeWhile_append [of "\<lambda>x. x \<noteq> b" ks "[x]"] by blast
      next
        case b: False
        with snoc.prems(2) snoc y have bx: "b = x" by simp
        have "a \<in> set (primeiras ks)" using p by simp
        then have "a \<in> set ks" by (simp add: set_primeiras)
        moreover have "takeWhile (\<lambda>z. z \<noteq> b) (ks @ [x]) = ks"
          using False bx by (simp add: takeWhile_neq_snoc)
        ultimately show ?thesis by simp
      qed
    qed
  qed
qed

lemma map_fst_dict_set:
  "map fst (dict_set k v d) = (if k \<in> fst ` set d then map fst d else map fst d @ [k])"
proof (induction d)
  case Nil
  show ?case by simp
next
  case (Cons p d)
  obtain k' v' where p: "p = (k', v')" by (cases p)
  show ?case
    using Cons.IH by (auto simp: p)
qed

lemma dict_set_new: "(k, v) \<in> set (dict_set k v d)"
proof (induction d)
  case Nil
  show ?case by simp
next
  case (Cons p d)
  obtain k' v' where p: "p = (k', v')" by (cases p)
  show ?case
    using Cons.IH by (simp add: p)
qed

lemma dict_set_old:
  "distinct (map fst d) \<Longrightarrow> (k', v') \<in> set (dict_set k v d) \<Longrightarrow>
   (k', v') = (k, v) \<or> ((k', v') \<in> set d \<and> k' \<noteq> k)"
proof (induction d)
  case Nil
  then show ?case by simp
next
  case (Cons p d)
  obtain a b where p: "p = (a, b)" by (cases p)
  show ?case
  proof (cases "a = k")
    case True
    with Cons.prems p show ?thesis by (auto simp: image_iff)
  next
    case False
    with Cons.prems p have "(k', v') = (a, b) \<or> (k', v') \<in> set (dict_set k v d)"
      by simp
    then show ?thesis
      using Cons.IH Cons.prems(1) False p by auto
  qed
qed

lemma primeiro_max_in: "primeiro_max f b xs \<in> set (b # xs)"
  by (induction xs arbitrary: b) auto

lemma primeiro_max_ge_first: "f b \<le> f (primeiro_max f b xs)"
proof (induction xs arbitrary: b)
  case Nil
  show ?case by simp
next
  case (Cons y ys)
  have "f b \<le> f (if f b < f y then y else b)" by simp
  also have "\<dots> \<le> f (primeiro_max f (if f b < f y then y else b) ys)" by (rule Cons.IH)
  finally show ?case by simp
qed

lemma primeiro_max_ge_rest: "x \<in> set xs \<Longrightarrow> f x \<le> f (primeiro_max f b xs)"
proof (induction xs arbitrary: b)
  case Nil
  then show ?case by simp
next
  case (Cons y ys)
  show ?case
  proof (cases "x \<in> set ys")
    case True
    then show ?thesis using Cons.IH by simp
  next
    case False
    with Cons.prems have "x = y" by simp
    then have "f x \<le> f (if f b < f y then y else b)" by simp
    also have "\<dots> \<le> f (primeiro_max f (if f b < f y then y else b) ys)"
      by (rule primeiro_max_ge_first)
    finally show ?thesis by simp
  qed
qed

lemma primeiro_max_ge: "x \<in> set (b # xs) \<Longrightarrow> f x \<le> f (primeiro_max f b xs)"
  using primeiro_max_ge_first [of f b xs] primeiro_max_ge_rest [of x xs f b] by auto

lemma primeiro_max_first:
  "\<exists>pre suf. b # xs = pre @ primeiro_max f b xs # suf
     \<and> (\<forall>x \<in> set pre. f x < f (primeiro_max f b xs))"
proof (induction xs arbitrary: b)
  case Nil
  have "[b] = [] @ primeiro_max f b [] # [] \<and> (\<forall>x \<in> set []. f x < f (primeiro_max f b []))"
    by simp
  then show ?case by blast
next
  case (Cons y ys)
  show ?case
  proof (cases "f b < f y")
    case True
    then have m: "primeiro_max f b (y # ys) = primeiro_max f y ys" by simp
    from Cons.IH [of y] obtain pre suf where
      e: "y # ys = pre @ primeiro_max f y ys # suf"
      and l: "\<forall>x \<in> set pre. f x < f (primeiro_max f y ys)"
      by blast
    have "f y \<le> f (primeiro_max f y ys)"
      by (rule primeiro_max_ge_first)
    with True have bl: "f b < f (primeiro_max f y ys)" by simp
    have "b # y # ys = (b # pre) @ primeiro_max f y ys # suf"
      using e by simp
    moreover have "\<forall>x \<in> set (b # pre). f x < f (primeiro_max f y ys)"
      using l bl by simp
    ultimately show ?thesis
      unfolding m by blast
  next
    case False
    then have m: "primeiro_max f b (y # ys) = primeiro_max f b ys" by simp
    from Cons.IH [of b] obtain pre suf where
      e: "b # ys = pre @ primeiro_max f b ys # suf"
      and l: "\<forall>x \<in> set pre. f x < f (primeiro_max f b ys)"
      by blast
    show ?thesis
    proof (cases pre)
      case Nil
      have "b # ys = primeiro_max f b ys # suf"
        using e unfolding Nil append_Nil .
      then have "b = primeiro_max f b ys" by (rule list.inject [THEN iffD1, THEN conjunct1])
      then have "b # y # ys = [] @ primeiro_max f b ys # (y # ys)" by simp
      moreover have "\<forall>x \<in> set []. f x < f (primeiro_max f b ys)" by simp
      ultimately show ?thesis
        unfolding m by blast
    next
      case (Cons p pre')
      have "b # ys = p # (pre' @ primeiro_max f b ys # suf)"
        using e unfolding Cons append_Cons .
      then have both: "b = p \<and> ys = pre' @ primeiro_max f b ys # suf"
        by (rule list.inject [THEN iffD1])
      from both have pb: "p = b" by blast
      from both have ys: "ys = pre' @ primeiro_max f b ys # suf" by blast
      have "f y \<le> f b" using False by simp
      moreover have "f b < f (primeiro_max f b ys)" using l Cons pb by simp
      ultimately have yl: "f y < f (primeiro_max f b ys)" by simp
      have "b # y # ys = b # y # (pre' @ primeiro_max f b ys # suf)"
        using ys by blast
      then have "b # y # ys = (b # y # pre') @ primeiro_max f b ys # suf"
        unfolding append_Cons .
      moreover have "\<forall>x \<in> set (b # y # pre'). f x < f (primeiro_max f b ys)"
        using l Cons pb yl by simp
      ultimately show ?thesis
        unfolding m by blast
    qed
  qed
qed

lemma primeiro_min_in: "primeiro_min f b xs \<in> set (b # xs)"
  by (induction xs arbitrary: b) auto

lemma primeiro_min_le_first: "f (primeiro_min f b xs) \<le> f b"
proof (induction xs arbitrary: b)
  case Nil
  show ?case by simp
next
  case (Cons y ys)
  have "f (primeiro_min f (if f y < f b then y else b) ys) \<le> f (if f y < f b then y else b)"
    by (rule Cons.IH)
  also have "\<dots> \<le> f b" by simp
  finally show ?case by simp
qed

lemma primeiro_min_le_rest: "x \<in> set xs \<Longrightarrow> f (primeiro_min f b xs) \<le> f x"
proof (induction xs arbitrary: b)
  case Nil
  then show ?case by simp
next
  case (Cons y ys)
  show ?case
  proof (cases "x \<in> set ys")
    case True
    then show ?thesis using Cons.IH by simp
  next
    case False
    with Cons.prems have xy: "x = y" by simp
    have "f (primeiro_min f (if f y < f b then y else b) ys) \<le> f (if f y < f b then y else b)"
      by (rule primeiro_min_le_first)
    also have "\<dots> \<le> f x" using xy by simp
    finally show ?thesis by simp
  qed
qed

lemma primeiro_min_le: "x \<in> set (b # xs) \<Longrightarrow> f (primeiro_min f b xs) \<le> f x"
  using primeiro_min_le_first [of f b xs] primeiro_min_le_rest [of x xs f b] by auto

section \<open>One entry for each key: the invariant\<close>

lemma registrar_valor_eq: "registrar_valor = registrar v_float (\<lambda>v. int (v_prioridade v))"
  by (intro ext) (simp add: registrar_valor_def registrar_def split: option.splits)

lemma registrar_candidato_eq:
  "registrar_candidato db = registrar (nome_norm db) (\<lambda>c. - int (c_score c))"
  by (intro ext) (simp add: registrar_candidato_def registrar_def split: option.splits)

lemma registrar_inv:
  "map fst (foldl (registrar key rank) [] cs) = primeiras (map key cs)
   \<and> (\<forall>p \<in> set (foldl (registrar key rank) [] cs). grupo_ok key rank cs p)"
proof (induction cs rule: rev_induct)
  case Nil
  show ?case by (simp add: primeiras_Nil)
next
  case (snoc c cs)
  define U where "U = foldl (registrar key rank) [] cs"
  have keys: "map fst U = primeiras (map key cs)"
    and ok: "\<forall>p \<in> set U. grupo_ok key rank cs p"
    using snoc.IH by (simp_all add: U_def)
  have dist: "distinct (map fst U)"
    unfolding keys by (rule distinct_primeiras)
  have fstU: "fst ` set U = key ` set cs"
    using arg_cong [OF keys, of set] by (simp add: set_primeiras)
  have step: "foldl (registrar key rank) [] (cs @ [c]) = registrar key rank U c"
    by (simp add: U_def)
  have old: "grupo_ok key rank (cs @ [c]) p" if "p \<in> set U" "fst p \<noteq> key c" for p
    using ok that by (auto simp: grupo_ok_def)
  show ?case
  proof (cases "map_of U (key c)")
    case None
    then have new: "key c \<notin> key ` set cs"
      using fstU by (simp add: map_of_eq_None_iff)
    have r: "registrar key rank U c = dict_set (key c) c U"
      using None by (simp add: registrar_def)
    have k: "map fst (dict_set (key c) c U) = primeiras (map key (cs @ [c]))"
      using new fstU keys by (simp add: map_fst_dict_set primeiras_snoc)
    have "grupo_ok key rank (cs @ [c]) p" if "p \<in> set (dict_set (key c) c U)" for p
    proof -
      obtain k' v' where p: "p = (k', v')" by (cases p)
      from dict_set_old [OF dist that [unfolded p]]
      show ?thesis
      proof
        assume "(k', v') = (key c, c)"
        then show ?thesis using new by (fastforce simp: grupo_ok_def p image_iff)
      next
        assume "(k', v') \<in> set U \<and> k' \<noteq> key c"
        then show ?thesis using old [of p] by (simp add: p)
      qed
    qed
    with k show ?thesis unfolding step r by blast
  next
    case (Some d)
    then have dU: "(key c, d) \<in> set U" by (rule map_of_SomeD)
    then have kin: "key c \<in> key ` set cs"
      using fstU by (metis fst_conv image_eqI)
    have dok: "grupo_ok key rank cs (key c, d)" using ok dU by blast
    show ?thesis
    proof (cases "rank c < rank d")
      case True
      have r: "registrar key rank U c = dict_set (key c) c U"
        using Some True by (simp add: registrar_def)
      have k: "map fst (dict_set (key c) c U) = primeiras (map key (cs @ [c]))"
        using kin fstU keys by (simp add: map_fst_dict_set primeiras_snoc)
      have "grupo_ok key rank (cs @ [c]) p" if "p \<in> set (dict_set (key c) c U)" for p
      proof -
        obtain k' v' where p: "p = (k', v')" by (cases p)
        from dict_set_old [OF dist that [unfolded p]]
        show ?thesis
        proof
          assume "(k', v') = (key c, c)"
          then show ?thesis using dok True by (fastforce simp: grupo_ok_def p)
        next
          assume "(k', v') \<in> set U \<and> k' \<noteq> key c"
          then show ?thesis using old [of p] by (simp add: p)
        qed
      qed
      with k show ?thesis unfolding step r by blast
    next
      case False
      have r: "registrar key rank U c = U"
        using Some False by (simp add: registrar_def)
      have k: "map fst U = primeiras (map key (cs @ [c]))"
        using kin keys by (simp add: primeiras_snoc)
      have "grupo_ok key rank (cs @ [c]) p" if "p \<in> set U" for p
      proof (cases "fst p = key c")
        case True
        obtain k' v' where p: "p = (k', v')" by (cases p)
        have "(key c, v') \<in> set U"
          using that True p by simp
        then have "v' = d"
          using eq_key_imp_eq_value [OF dist _ dU] by blast
        then show ?thesis
          using dok False True by (auto simp: grupo_ok_def p)
      next
        case False
        then show ?thesis using old that by blast
      qed
      with k show ?thesis unfolding step r by blast
    qed
  qed
qed

end
